theory Spec2Isabelle
  imports Complex_Main "HOL-Library.Multiset"
begin

section \<open>PowerPath 100: data model (src/game/powerpath.ts)\<close>

text \<open>
  The engine is the class \<open>PowerPath100\<close>. Its private fields become one record that every
  operation takes and returns. Three things come from outside the engine and are passed in
  as arguments:
  \<^item> the clock \<open>Date.now()\<close>, an integer number of milliseconds;
  \<^item> the random source \<open>Math.random()\<close>, an infinite sequence of draws \<open>rnd 0, rnd 1, \<dots>\<close>
    with the index of the next draw threaded through every function that draws;
  \<^item> what the registered observer does when it is called: it returns, or it throws.
\<close>

datatype Difficulty = easy | medium | hard

text \<open>
  \<open>PowerPathQuestion\<close>. The field \<open>id\<close> is named \<open>id_q\<close> here. \<open>humanApproved\<close> is an optional
  boolean. Of \<open>metadata\<close> only \<open>metadata.difficulty\<close> is read by the engine (field
  \<open>metaDifficulty\<close>, \<open>None\<close> when \<open>metadata\<close> or the entry is absent); \<open>choices\<close> and the other
  metadata entries are never inspected by the engine and are left out.
\<close>

record PowerPathQuestion =
  id_q :: string
  prompt :: string
  difficulty :: Difficulty
  humanApproved :: "bool option"
  metaDifficulty :: "string option"

record QuestionHistory =
  questionId :: string
  wasCorrect :: bool
  attemptNumber :: nat
  timestamp :: int

text \<open>
  The fields of the class. \<open>'o\<close> is the type of observers (the callback \<open>onStatsUpdate\<close>);
  the engine only stores it, tests whether it is present and calls it.
\<close>

record 'o PowerPath100 =
  score :: int
  questionsAnswered :: nat
  correctAnswers :: nat
  currentAttempt :: nat
  startTime :: int
  allQuestionHistory :: "QuestionHistory list"
  currentAttemptHistory :: "QuestionHistory list"
  guidingQuestions :: "PowerPathQuestion list"
  quizQuestions :: "PowerPathQuestion list"
  currentGuidingIndex :: nat
  onStatsUpdate :: "'o option"

text \<open>What a call of the observer does: it returns normally or it throws the value \<open>e\<close>.\<close>

datatype 'e callback = Returns | Throws 'e

type_synonym random_source = "nat \<Rightarrow> real"

section \<open>Construction\<close>

text \<open>\<open>String.prototype.toLowerCase\<close> on the ASCII letters; other characters are kept.\<close>

definition lowerChar :: "char \<Rightarrow> char" where
  "lowerChar c =
     (let n = (of_char c :: nat) in if 65 \<le> n \<and> n \<le> 90 then char_of (n + 32) else c)"

definition toLowerCase :: "string \<Rightarrow> string" where
  "toLowerCase s = map lowerChar s"

text \<open>\<open>parseDifficulty\<close>; the absent descriptor is \<open>None\<close>, and the empty string is falsy.\<close>

definition parseDifficulty :: "string option \<Rightarrow> Difficulty" where
  "parseDifficulty diff =
     (case diff of
        None \<Rightarrow> medium
      | Some d \<Rightarrow>
          if d = [] then medium
          else let lower = toLowerCase d in
            if lower = ''easy'' \<or> lower = ''low'' then easy
            else if lower = ''hard'' \<or> lower = ''high'' \<or> lower = ''difficult'' then hard
            else medium)"

definition difficultyName :: "Difficulty \<Rightarrow> string" where
  "difficultyName d = (case d of easy \<Rightarrow> ''easy'' | medium \<Rightarrow> ''medium'' | hard \<Rightarrow> ''hard'')"

text \<open>
  \<open>normalizeQuizQuestions\<close>: the descriptor is \<open>q.metadata?.difficulty || q.difficulty\<close>, so
  an absent or empty metadata string falls back to the tier the question already has.
\<close>

definition normalizeQuizQuestions :: "PowerPathQuestion list \<Rightarrow> PowerPathQuestion list" where
  "normalizeQuizQuestions questions =
     map (\<lambda>q. q\<lparr>difficulty :=
                  parseDifficulty
                    (case metaDifficulty q of
                       None \<Rightarrow> Some (difficultyName (difficulty q))
                     | Some d \<Rightarrow> if d = [] then Some (difficultyName (difficulty q)) else Some d)\<rparr>)
         questions"

text \<open>The constructor; \<open>now\<close> is the value of \<open>Date.now()\<close> it reads.\<close>

definition new_PowerPath100 ::
  "PowerPathQuestion list \<Rightarrow> PowerPathQuestion list \<Rightarrow> 'o option \<Rightarrow> int \<Rightarrow> 'o PowerPath100" where
  "new_PowerPath100 guiding quiz observer now =
     \<lparr>score = 0, questionsAnswered = 0, correctAnswers = 0, currentAttempt = 1,
      startTime = now, allQuestionHistory = [], currentAttemptHistory = [],
      guidingQuestions = guiding, quizQuestions = normalizeQuizQuestions quiz,
      currentGuidingIndex = 0, onStatsUpdate = observer\<rparr>"

section \<open>Score calculation\<close>

text \<open>
  The score starts at 0 and only integers are added to it, so it is an integer and
  \<open>Math.floor(score / 10)\<close> is the floor division \<open>score div 10\<close>.
\<close>

definition calculateIncrement :: "'o PowerPath100 \<Rightarrow> int" where
  "calculateIncrement s = max 4 (14 - score s div 10)"

definition calculateDecrement :: "'o PowerPath100 \<Rightarrow> int" where
  "calculateDecrement s =
     (if score s \<ge> 90 then - 8
      else if score s \<ge> 80 then - 7
      else if score s \<ge> 70 then - 6
      else if score s \<ge> 50 then - 5
      else if score s \<ge> 40 then - 4
      else if score s \<ge> 30 then - 3
      else if score s \<ge> 20 then - 2
      else - 1)"

text \<open>\<open>getTargetDifficulty\<close> draws from the random source only in the middle bracket.\<close>

definition getTargetDifficulty ::
  "'o PowerPath100 \<Rightarrow> random_source \<Rightarrow> nat \<Rightarrow> Difficulty \<times> nat" where
  "getTargetDifficulty s rnd p =
     (if score s \<ge> 90 then (hard, p)
      else if score s \<ge> 50 then ((if rnd p < 0.75 then medium else hard), p + 1)
      else (easy, p))"

definition getFallbackDifficulties :: "Difficulty \<Rightarrow> Difficulty list" where
  "getFallbackDifficulties primary =
     (case primary of
        easy \<Rightarrow> [easy, medium, hard]
      | medium \<Rightarrow> [medium, hard, easy]
      | hard \<Rightarrow> [hard, medium, easy])"

section \<open>Question selection\<close>

definition getGloballySeenQuestionIds :: "'o PowerPath100 \<Rightarrow> string set" where
  "getGloballySeenQuestionIds s = set (map questionId (allQuestionHistory s))"

definition getCurrentAttemptSeenIds :: "'o PowerPath100 \<Rightarrow> string set" where
  "getCurrentAttemptSeenIds s = set (map questionId (currentAttemptHistory s))"

definition filterByDifficulty ::
  "PowerPathQuestion list \<Rightarrow> Difficulty \<Rightarrow> PowerPathQuestion list" where
  "filterByDifficulty questions d = filter (\<lambda>q. difficulty q = d) questions"

definition filterUnseenQuestions ::
  "PowerPathQuestion list \<Rightarrow> string set \<Rightarrow> PowerPathQuestion list" where
  "filterUnseenQuestions questions seenIds = filter (\<lambda>q. id_q q \<notin> seenIds) questions"

text \<open>
  \<open>shuffleArray\<close>: the loop runs \<open>i\<close> from \<open>length - 1\<close> down to 1, draws
  \<open>j = floor (random * (i + 1))\<close> and swaps the entries at \<open>i\<close> and \<open>j\<close>. The loop
  function takes the current \<open>i\<close>; it returns the array and the index of the next draw.
\<close>

fun shuffleLoop :: "random_source \<Rightarrow> nat \<Rightarrow> nat \<Rightarrow> 'a list \<Rightarrow> 'a list \<times> nat" where
  "shuffleLoop rnd p 0 array = (array, p)"
| "shuffleLoop rnd p (Suc k) array =
     (let i = Suc k;
          j = nat \<lfloor>rnd p * real (i + 1)\<rfloor>
      in shuffleLoop rnd (p + 1) k (array[i := array ! j, j := array ! i]))"

definition shuffleArray :: "random_source \<Rightarrow> nat \<Rightarrow> 'a list \<Rightarrow> 'a list \<times> nat" where
  "shuffleArray rnd p array = shuffleLoop rnd p (length array - 1) array"

definition isApproved :: "PowerPathQuestion \<Rightarrow> bool" where
  "isApproved q = (humanApproved q = Some True)"

definition prioritizeHumanApproved ::
  "random_source \<Rightarrow> nat \<Rightarrow> PowerPathQuestion list \<Rightarrow> PowerPathQuestion list \<times> nat" where
  "prioritizeHumanApproved rnd p questions =
     (let approved = filter (\<lambda>q. isApproved q) questions;
          notApproved = filter (\<lambda>q. \<not> isApproved q) questions;
          (approved', p1) = shuffleArray rnd p approved;
          (notApproved', p2) = shuffleArray rnd p1 notApproved
      in (approved' @ notApproved', p2))"

text \<open>
  \<open>array[0]\<close>: the first entry, and \<open>undefined\<close> (here \<open>None\<close>, as for \<open>null\<close>: the callers
  test the result for falsiness only) on the empty array.
\<close>

definition first :: "'a list \<Rightarrow> 'a option" where
  "first xs = (case xs of [] \<Rightarrow> None | x # _ \<Rightarrow> Some x)"

text \<open>
  The three \<open>for (const difficulty of fallbackOrder)\<close> loops of \<open>selectQuizQuestion\<close>. Each
  returns \<open>Some\<close> of the method's result when a \<open>return\<close> inside the loop is reached and
  \<open>None\<close> when the loop runs to its end. Steps 1 and 2 are the same loop over different
  sets of seen ids; step 3 does not filter by exposure.
\<close>

fun selectUnseenLoop ::
  "random_source \<Rightarrow> nat \<Rightarrow> PowerPathQuestion list \<Rightarrow> string set \<Rightarrow> Difficulty list
   \<Rightarrow> (PowerPathQuestion option \<times> nat) option" where
  "selectUnseenLoop rnd p quiz seenIds [] = None"
| "selectUnseenLoop rnd p quiz seenIds (d # ds) =
     (let filtered = filterByDifficulty quiz d;
          unseen = filterUnseenQuestions filtered seenIds
      in if length unseen > 0
         then (let (prioritized, p') = prioritizeHumanApproved rnd p unseen
               in Some (first prioritized, p'))
         else selectUnseenLoop rnd p quiz seenIds ds)"

fun selectAnyLoop ::
  "random_source \<Rightarrow> nat \<Rightarrow> PowerPathQuestion list \<Rightarrow> Difficulty list
   \<Rightarrow> (PowerPathQuestion option \<times> nat) option" where
  "selectAnyLoop rnd p quiz [] = None"
| "selectAnyLoop rnd p quiz (d # ds) =
     (let filtered = filterByDifficulty quiz d
      in if length filtered > 0
         then (let (prioritized, p') = prioritizeHumanApproved rnd p filtered
               in Some (first prioritized, p'))
         else selectAnyLoop rnd p quiz ds)"

definition selectQuizQuestion ::
  "'o PowerPath100 \<Rightarrow> random_source \<Rightarrow> nat \<Rightarrow> PowerPathQuestion option \<times> nat" where
  "selectQuizQuestion s rnd p =
     (let (targetDifficulty, p1) = getTargetDifficulty s rnd p;
          fallbackOrder = getFallbackDifficulties targetDifficulty;
          globallySeenIds = getGloballySeenQuestionIds s
      in case selectUnseenLoop rnd p1 (quizQuestions s) globallySeenIds fallbackOrder of
           Some r \<Rightarrow> r
         | None \<Rightarrow>
            (let currentSeenIds = getCurrentAttemptSeenIds s
             in case selectUnseenLoop rnd p1 (quizQuestions s) currentSeenIds fallbackOrder of
                  Some r \<Rightarrow> r
                | None \<Rightarrow>
                   (case selectAnyLoop rnd p1 (quizQuestions s) fallbackOrder of
                      Some r \<Rightarrow> r
                    | None \<Rightarrow>
                       if length (quizQuestions s) > 0
                       then (let (shuffled, p2) = shuffleArray rnd p1 (quizQuestions s)
                             in (first shuffled, p2))
                       else (None, p1))))"

section \<open>Public operations\<close>

definition isComplete :: "'o PowerPath100 \<Rightarrow> bool" where
  "isComplete s = (score s \<ge> 100)"

datatype Phase = guiding | quiz

definition getCurrentPhase :: "'o PowerPath100 \<Rightarrow> Phase" where
  "getCurrentPhase s =
     (if currentGuidingIndex s < length (guidingQuestions s) then guiding else quiz)"

text \<open>
  \<open>getNextQuestion\<close> reads the engine and assigns to none of its fields (the arrays that
  \<open>shuffleArray\<close> permutes are fresh ones made by \<open>filter\<close> or by spreading), so its model
  returns the question and the index of the next random draw only.
\<close>

definition getNextQuestion ::
  "'o PowerPath100 \<Rightarrow> random_source \<Rightarrow> nat \<Rightarrow> PowerPathQuestion option \<times> nat" where
  "getNextQuestion s rnd p =
     (if score s \<ge> 100 then (None, p)
      else if currentGuidingIndex s < length (guidingQuestions s)
      then (Some (guidingQuestions s ! currentGuidingIndex s), p)
      else selectQuizQuestion s rnd p)"

text \<open>
  The call \<open>if (this.onStatsUpdate) this.onStatsUpdate(this.getStats())\<close> that ends
  \<open>recordAnswer\<close>, \<open>resetAttempt\<close> and \<open>fullReset\<close>. \<open>getStats\<close> reads the engine and the
  clock and cannot throw; what the observer does with the snapshot is the argument \<open>cb\<close>.
  The call is not guarded, so a throwing observer ends the method with that exception:
  the result is \<open>Inl e\<close>, and otherwise \<open>Inr\<close> of the value the method returns.
\<close>

definition notifyStatsUpdate :: "'o PowerPath100 \<Rightarrow> 'e callback \<Rightarrow> 'a \<Rightarrow> 'e + 'a" where
  "notifyStatsUpdate s cb result =
     (case onStatsUpdate s of
        None \<Rightarrow> Inr result
      | Some observer \<Rightarrow> (case cb of Returns \<Rightarrow> Inr result | Throws e \<Rightarrow> Inl e))"

text \<open>
  \<open>recordAnswer\<close>. Its statements assign six different fields, each once, and every
  right-hand side reads fields that no earlier statement of the method has assigned
  (\<open>isGuidingQuestion\<close> reads the cursor before it is advanced, \<open>calculateIncrement\<close> and
  \<open>calculateDecrement\<close> read the score before it is changed), so all of them are
  evaluated in the state \<open>s\<close> at entry and the method is one record update. The fields
  are assigned before the observer is called.
\<close>

definition recordAnswer ::
  "'o PowerPath100 \<Rightarrow> string \<Rightarrow> bool \<Rightarrow> int \<Rightarrow> 'e callback \<Rightarrow> ('e + int) \<times> 'o PowerPath100" where
  "recordAnswer s qid correct now cb =
     (let isGuidingQuestion =
            (currentGuidingIndex s < length (guidingQuestions s) \<and>
             id_q (guidingQuestions s ! currentGuidingIndex s) = qid);
          historyEntry = \<lparr>questionId = qid, wasCorrect = correct,
                          attemptNumber = currentAttempt s, timestamp = now\<rparr>;
          scoreChange = (if correct then calculateIncrement s else calculateDecrement s);
          s' = s\<lparr>questionsAnswered := questionsAnswered s + 1,
                 allQuestionHistory := allQuestionHistory s @ [historyEntry],
                 currentAttemptHistory := currentAttemptHistory s @ [historyEntry],
                 currentGuidingIndex :=
                   (if isGuidingQuestion then currentGuidingIndex s + 1
                    else currentGuidingIndex s),
                 correctAnswers :=
                   (if correct then correctAnswers s + 1 else correctAnswers s),
                 score :=
                   (if correct then min 100 (score s + scoreChange)
                    else max 0 (score s + scoreChange))\<rparr>
      in (notifyStatsUpdate s' cb scoreChange, s'))"

definition resetAttempt ::
  "'o PowerPath100 \<Rightarrow> int \<Rightarrow> 'e callback \<Rightarrow> ('e + unit) \<times> 'o PowerPath100" where
  "resetAttempt s now cb =
     (let s' = s\<lparr>score := 0, questionsAnswered := 0, correctAnswers := 0,
                 currentGuidingIndex := 0, currentAttemptHistory := [],
                 currentAttempt := currentAttempt s + 1, startTime := now\<rparr>
      in (notifyStatsUpdate s' cb (), s'))"

definition fullReset ::
  "'o PowerPath100 \<Rightarrow> int \<Rightarrow> 'e callback \<Rightarrow> ('e + unit) \<times> 'o PowerPath100" where
  "fullReset s now cb =
     (let s' = s\<lparr>score := 0, questionsAnswered := 0, correctAnswers := 0,
                 currentGuidingIndex := 0, allQuestionHistory := [],
                 currentAttemptHistory := [], currentAttempt := 1, startTime := now\<rparr>
      in (notifyStatsUpdate s' cb (), s'))"

section \<open>Sequences of calls, candidate sets and sample engines\<close>

text \<open>
  A client calling \<open>recordAnswer\<close> repeatedly: each call is the question id, the
  correctness flag, the clock value read by the call and what the observer does in it.
  The result lists the engine after each call. The client goes on after a call that
  ended with the observer's exception, as the engine itself stays usable.
\<close>

fun recordAnswers ::
  "'o PowerPath100 \<Rightarrow> (string \<times> bool \<times> int \<times> 'e callback) list \<Rightarrow> 'o PowerPath100 list" where
  "recordAnswers s [] = []"
| "recordAnswers s ((qid, correct, now, cb) # calls) =
     (let s' = snd (recordAnswer s qid correct now cb) in s' # recordAnswers s' calls)"

text \<open>
  The candidate set at which \<open>selectQuizQuestion\<close> returns, for a given target tier: the
  lists tested by its three loops, in the order the loops test them, up to the first that
  is not empty. It is used to state properties of the selector and is related to
  \<open>selectQuizQuestion\<close> by lemma \<open>selectQuizQuestion_candidates\<close> below.
\<close>

fun firstNonEmpty :: "'a list list \<Rightarrow> 'a list option" where
  "firstNonEmpty [] = None"
| "firstNonEmpty (c # cs) = (if length c > 0 then Some c else firstNonEmpty cs)"

definition candidateSet :: "'o PowerPath100 \<Rightarrow> Difficulty \<Rightarrow> PowerPathQuestion list option" where
  "candidateSet s target =
     (let order = getFallbackDifficulties target;
          byTier = (\<lambda>d. filterByDifficulty (quizQuestions s) d)
      in firstNonEmpty
           (map (\<lambda>d. filterUnseenQuestions (byTier d) (getGloballySeenQuestionIds s)) order
            @ map (\<lambda>d. filterUnseenQuestions (byTier d) (getCurrentAttemptSeenIds s)) order
            @ map byTier order))"

text \<open>Sample questions, engines, calls and a random source, for concrete instances.\<close>

definition questionA :: PowerPathQuestion where
  "questionA = \<lparr>id_q = ''a'', prompt = ''A?'', difficulty = easy,
                 humanApproved = None, metaDifficulty = None\<rparr>"

definition questionB :: PowerPathQuestion where
  "questionB = \<lparr>id_q = ''b'', prompt = ''B?'', difficulty = easy,
                 humanApproved = Some True, metaDifficulty = None\<rparr>"

definition questionC :: PowerPathQuestion where
  "questionC = \<lparr>id_q = ''c'', prompt = ''C?'', difficulty = hard,
                 humanApproved = Some False, metaDifficulty = None\<rparr>"

definition guideQuestion :: PowerPathQuestion where
  "guideQuestion = \<lparr>id_q = ''g'', prompt = ''G?'', difficulty = medium,
                     humanApproved = None, metaDifficulty = None\<rparr>"

definition quizEngine :: "unit PowerPath100" where
  "quizEngine = new_PowerPath100 [] [questionA, questionB, questionC] (Some ()) 0"

definition guidedEngine :: "unit PowerPath100" where
  "guidedEngine = new_PowerPath100 [guideQuestion] [questionA, questionB, questionC] None 0"

definition halfRandom :: random_source where
  "halfRandom n = 1 / 2"

text \<open>A freshly constructed engine with empty pools and an observer registered.\<close>

definition demoEngine :: "unit PowerPath100" where
  "demoEngine = new_PowerPath100 [] [] (Some ()) 0"

text \<open>Fourteen answers that take a fresh engine to the score 91, then on to 96 and 100.\<close>

definition demoCalls :: "(string \<times> bool \<times> int \<times> string callback) list" where
  "demoCalls =
     [(''q1'', True, 1, Returns), (''q2'', True, 2, Returns), (''q3'', True, 3, Returns),
      (''q4'', True, 4, Returns), (''q5'', True, 5, Returns), (''q6'', True, 6, Returns),
      (''q7'', True, 7, Returns), (''q8'', True, 8, Returns), (''q9'', True, 9, Returns),
      (''q10'', True, 10, Returns), (''q11'', False, 11, Returns), (''q12'', True, 12, Returns),
      (''q13'', False, 13, Returns), (''q14'', True, 14, Returns)]"

definition engineAt91 :: "unit PowerPath100" where
  "engineAt91 = last (recordAnswers demoEngine demoCalls)"

definition engineAt96 :: "unit PowerPath100" where
  "engineAt96 = snd (recordAnswer engineAt91 ''q15'' True 15 (Returns :: string callback))"

definition engineAt100 :: "unit PowerPath100" where
  "engineAt100 = snd (recordAnswer engineAt96 ''q16'' True 16 (Returns :: string callback))"

text \<open>The engine \<open>quizEngine\<close> after question \<open>a\<close> has been answered.\<close>

definition quizEngineSeenA :: "unit PowerPath100" where
  "quizEngineSeenA = snd (recordAnswer quizEngine ''a'' True 1 (Returns :: string callback))"

section \<open>Facts about \<open>recordAnswer\<close>\<close>

lemma score_recordAnswer_correct:
  "score (snd (recordAnswer s qid True now cb)) = min 100 (score s + calculateIncrement s)"
  by (simp add: recordAnswer_def Let_def)

lemma score_recordAnswer_incorrect:
  "score (snd (recordAnswer s qid False now cb)) = max 0 (score s + calculateDecrement s)"
  by (simp add: recordAnswer_def Let_def)

lemma fst_recordAnswer_Returns:
  "fst (recordAnswer s qid correct now Returns) =
     Inr (if correct then calculateIncrement s else calculateDecrement s)"
  by (simp add: recordAnswer_def Let_def notifyStatsUpdate_def split: option.split)

lemma snd_recordAnswer_callback:
  "snd (recordAnswer s qid correct now cb) = snd (recordAnswer s qid correct now cb')"
  by (simp add: recordAnswer_def Let_def)

lemma calculateIncrement_pos: "4 \<le> calculateIncrement s"
  by (simp add: calculateIncrement_def)

lemma calculateDecrement_neg: "calculateDecrement s < 0"
  by (simp add: calculateDecrement_def)

lemma recordAnswer_score_range:
  assumes "0 \<le> score s" and "score s \<le> 100"
  shows "0 \<le> score (snd (recordAnswer s qid correct now cb))
       \<and> score (snd (recordAnswer s qid correct now cb)) \<le> 100"
proof (cases correct)
  case True
  have "4 \<le> calculateIncrement s" by (rule calculateIncrement_pos)
  with assms True show ?thesis by (simp add: score_recordAnswer_correct)
next
  case False
  have "calculateDecrement s < 0" by (rule calculateDecrement_neg)
  with assms False show ?thesis by (simp add: score_recordAnswer_incorrect)
qed

lemma recordAnswers_score_range:
  "0 \<le> score s \<Longrightarrow> score s \<le> 100 \<Longrightarrow> t \<in> set (recordAnswers s calls)
   \<Longrightarrow> 0 \<le> score t \<and> score t \<le> 100"
proof (induction calls arbitrary: s)
  case Nil
  then show ?case by simp
next
  case (Cons c calls)
  obtain qid correct now cb where c: "c = (qid, correct, now, cb)"
    by (cases c) auto
  let ?s' = "snd (recordAnswer s qid correct now cb)"
  have r: "0 \<le> score ?s' \<and> score ?s' \<le> 100"
    using Cons.prems(1,2) by (rule recordAnswer_score_range)
  from Cons.prems(3) c have "t = ?s' \<or> t \<in> set (recordAnswers ?s' calls)"
    by (simp add: Let_def)
  then show ?case
  proof
    assume "t = ?s'"
    with r show ?thesis by simp
  next
    assume "t \<in> set (recordAnswers ?s' calls)"
    with r Cons.IH show ?thesis by blast
  qed
qed

subsection \<open>The sample engines\<close>

lemma parseDifficulty_difficultyName: "parseDifficulty (Some (difficultyName d)) = d"
  by (cases d)
    (simp_all add: parseDifficulty_def difficultyName_def toLowerCase_def lowerChar_def)

lemma normalize_samples:
  "normalizeQuizQuestions [questionA, questionB, questionC] = [questionA, questionB, questionC]"
  by (simp add: normalizeQuizQuestions_def questionA_def questionB_def questionC_def
      parseDifficulty_difficultyName)

lemma score_demoEngine: "score demoEngine = 0"
  by (simp add: demoEngine_def new_PowerPath100_def)

lemma scores_demoCalls:
  "map score (recordAnswers demoEngine demoCalls) =
     [14, 27, 39, 50, 59, 68, 76, 83, 89, 95, 87, 93, 85, 91]"
  by code_simp

lemma score_engineAt91: "score engineAt91 = 91"
  by code_simp

lemma engineAt91_reached: "engineAt91 \<in> set (recordAnswers demoEngine demoCalls)"
proof -
  have "recordAnswers demoEngine demoCalls \<noteq> []"
    by (simp add: demoCalls_def Let_def)
  then show ?thesis
    unfolding engineAt91_def by (rule last_in_set)
qed

lemma score_engineAt96: "score engineAt96 = 96"
  unfolding engineAt96_def
  by (simp add: score_recordAnswer_correct calculateIncrement_def score_engineAt91)

lemma score_engineAt100: "score engineAt100 = 100"
  unfolding engineAt100_def
  by (simp add: score_recordAnswer_correct calculateIncrement_def score_engineAt96)

lemma halfRandom_range: "\<forall>n. 0 \<le> halfRandom n \<and> halfRandom n < 1"
  by (simp add: halfRandom_def)

lemma quizEngine_fields:
  "score quizEngine = 0"
  "quizQuestions quizEngine = [questionA, questionB, questionC]"
  "allQuestionHistory quizEngine = []"
  "currentAttemptHistory quizEngine = []"
  by (simp_all add: quizEngine_def new_PowerPath100_def normalize_samples)

lemma quizEngineSeenA_fields:
  "score quizEngineSeenA = 14"
  "quizQuestions quizEngineSeenA = [questionA, questionB, questionC]"
  "map questionId (allQuestionHistory quizEngineSeenA) = [''a'']"
  "map questionId (currentAttemptHistory quizEngineSeenA) = [''a'']"
  by (simp_all add: quizEngineSeenA_def recordAnswer_def Let_def calculateIncrement_def
      quizEngine_fields)

lemma guidedEngine_fields:
  "score guidedEngine = 0" "guidingQuestions guidedEngine = [guideQuestion]"
  "currentGuidingIndex guidedEngine = 0"
  by (simp_all add: guidedEngine_def new_PowerPath100_def)

section \<open>The score model\<close>

text \<open>
  C1 (score invariant). An engine is constructed with score 0. From any engine whose
  score lies in \<open>[0, 100]\<close>, and so from every constructed engine, the score lies in
  \<open>[0, 100]\<close> after each call of any finite sequence of \<open>recordAnswer\<close> calls, whatever
  the question ids, the correctness flags, the clock values and the behaviour of the
  observer. A correct answer sets the score to \<open>min 100 (score + delta)\<close>, an incorrect
  one to \<open>max 0 (score + delta)\<close>.
\<close>

theorem recordAnswer_score_invariant:
  assumes "0 \<le> score s" and "score s \<le> 100" and "t \<in> set (recordAnswers s calls)"
  shows "0 \<le> score t \<and> score t \<le> 100
       \<and> score (new_PowerPath100 gs qs observer now0) = 0
       \<and> score (snd (recordAnswer s qid True now cb)) = min 100 (score s + calculateIncrement s)
       \<and> score (snd (recordAnswer s qid False now cb)) = max 0 (score s + calculateDecrement s)"
proof -
  have "0 \<le> score t \<and> score t \<le> 100"
    using assms by (rule recordAnswers_score_range)
  moreover have "score (new_PowerPath100 gs qs observer now0) = 0"
    by (simp add: new_PowerPath100_def)
  ultimately show ?thesis
    by (simp only: score_recordAnswer_correct score_recordAnswer_incorrect simp_thms)
qed

theorem recordAnswer_score_invariant_witness:
  "0 \<le> score demoEngine \<and> score demoEngine \<le> 100
   \<and> engineAt91 \<in> set (recordAnswers demoEngine demoCalls)
   \<and> 0 \<le> score engineAt91 \<and> score engineAt91 \<le> 100"
proof -
  have a: "0 \<le> score demoEngine" and b: "score demoEngine \<le> 100"
    by (simp_all add: score_demoEngine)
  note c = engineAt91_reached
  have "0 \<le> score engineAt91 \<and> score engineAt91 \<le> 100"
    using recordAnswer_score_invariant [OF a b c] by blast
  with a b c show ?thesis by blast
qed

text \<open>
  C2 (correct answers). For every score, in particular for every score in \<open>[0, 100]\<close>,
  a correct answer has \<open>delta = max 4 (14 - score div 10)\<close>, which is the value
  \<open>recordAnswer\<close> returns when the observer returns, and the new score is
  \<open>min 100 (score + delta)\<close>. From score 0 three correct answers in a row give the
  scores 14, 27, 39, and a correct answer at score 96 gives exactly 100.
\<close>

theorem recordAnswer_correct_model:
  "calculateIncrement s = max 4 (14 - score s div 10)
   \<and> fst (recordAnswer s qid True now Returns) = Inr (max 4 (14 - score s div 10))
   \<and> score (snd (recordAnswer s qid True now cb))
       = min 100 (score s + max 4 (14 - score s div 10))
   \<and> (score s = 0 \<longrightarrow>
        map score (recordAnswers s [(q1, True, t1, c1), (q2, True, t2, c2), (q3, True, t3, c3)])
          = [14, 27, 39])
   \<and> (score s = 96 \<longrightarrow> score (snd (recordAnswer s qid True now cb)) = 100)"
proof -
  have step: "\<And>(u :: 'a PowerPath100) q t c.
      score (snd (recordAnswer u q True t c)) = min 100 (score u + max 4 (14 - score u div 10))"
    by (simp add: score_recordAnswer_correct calculateIncrement_def)
  have chain: "score s = 0 \<longrightarrow>
        map score (recordAnswers s [(q1, True, t1, c1), (q2, True, t2, c2), (q3, True, t3, c3)])
          = [14, 27, 39]"
    by (simp add: Let_def step)
  have cap: "score s = 96 \<longrightarrow> score (snd (recordAnswer s qid True now cb)) = 100"
    by (simp add: step)
  have ret: "fst (recordAnswer s qid True now Returns) = Inr (max 4 (14 - score s div 10))"
    by (simp add: fst_recordAnswer_Returns calculateIncrement_def)
  from chain cap ret step [of s qid now cb] show ?thesis
    by (simp only: calculateIncrement_def simp_thms)
qed

theorem recordAnswer_correct_model_witness:
  "score demoEngine = 0
   \<and> map score (recordAnswers demoEngine
        [(''q1'', True, 1, Returns), (''q2'', True, 2, Throws ''e''), (''q3'', True, 3, Returns)])
       = [14, 27, 39]"
proof -
  have "score demoEngine = 0 \<longrightarrow>
     map score (recordAnswers demoEngine
        [(''q1'', True, 1, Returns), (''q2'', True, 2, Throws ''e''), (''q3'', True, 3, Returns)])
       = [14, 27, 39]"
    using recordAnswer_correct_model [of demoEngine _ _ _ "''q1''" 1 Returns
      "''q2''" 2 "Throws ''e''" "''q3''" 3 Returns]
    by blast
  with score_demoEngine show ?thesis by blast
qed

text \<open>
  C3 (incorrect answers). For every score, in particular for every score in \<open>[0, 100]\<close>,
  an incorrect answer takes its delta from the bracket of the score, with inclusive
  lower bounds: at least 90 gives -8, at least 80 gives -7, at least 70 gives -6, at
  least 50 gives -5, at least 40 gives -4, at least 30 gives -3, at least 20 gives -2,
  anything lower -1. That delta is the value \<open>recordAnswer\<close> returns when the observer
  returns, and the new score is \<open>max 0 (score + delta)\<close>. At score 90 the delta is -8 and
  at score 89 it is -7.
\<close>

theorem recordAnswer_incorrect_model:
  "(90 \<le> score s \<longrightarrow> calculateDecrement s = - 8)
   \<and> (80 \<le> score s \<and> score s < 90 \<longrightarrow> calculateDecrement s = - 7)
   \<and> (70 \<le> score s \<and> score s < 80 \<longrightarrow> calculateDecrement s = - 6)
   \<and> (50 \<le> score s \<and> score s < 70 \<longrightarrow> calculateDecrement s = - 5)
   \<and> (40 \<le> score s \<and> score s < 50 \<longrightarrow> calculateDecrement s = - 4)
   \<and> (30 \<le> score s \<and> score s < 40 \<longrightarrow> calculateDecrement s = - 3)
   \<and> (20 \<le> score s \<and> score s < 30 \<longrightarrow> calculateDecrement s = - 2)
   \<and> (score s < 20 \<longrightarrow> calculateDecrement s = - 1)
   \<and> fst (recordAnswer s qid False now Returns) = Inr (calculateDecrement s)
   \<and> score (snd (recordAnswer s qid False now cb)) = max 0 (score s + calculateDecrement s)
   \<and> (score s = 90 \<longrightarrow> fst (recordAnswer s qid False now Returns) = Inr (- 8))
   \<and> (score s = 89 \<longrightarrow> fst (recordAnswer s qid False now Returns) = Inr (- 7))"
proof -
  have brackets:
    "90 \<le> score s \<longrightarrow> calculateDecrement s = - 8"
    "80 \<le> score s \<and> score s < 90 \<longrightarrow> calculateDecrement s = - 7"
    "70 \<le> score s \<and> score s < 80 \<longrightarrow> calculateDecrement s = - 6"
    "50 \<le> score s \<and> score s < 70 \<longrightarrow> calculateDecrement s = - 5"
    "40 \<le> score s \<and> score s < 50 \<longrightarrow> calculateDecrement s = - 4"
    "30 \<le> score s \<and> score s < 40 \<longrightarrow> calculateDecrement s = - 3"
    "20 \<le> score s \<and> score s < 30 \<longrightarrow> calculateDecrement s = - 2"
    "score s < 20 \<longrightarrow> calculateDecrement s = - 1"
    by (simp_all add: calculateDecrement_def)
  have ret: "fst (recordAnswer s qid False now Returns) = Inr (calculateDecrement s)"
    by (simp add: fst_recordAnswer_Returns)
  have at90: "score s = 90 \<longrightarrow> fst (recordAnswer s qid False now Returns) = Inr (- 8)"
    by (simp add: ret calculateDecrement_def)
  have at89: "score s = 89 \<longrightarrow> fst (recordAnswer s qid False now Returns) = Inr (- 7)"
    by (simp add: ret calculateDecrement_def)
  note new = score_recordAnswer_incorrect [of s qid now cb]
  from brackets ret new at90 at89 show ?thesis
    by blast
qed

theorem recordAnswer_incorrect_model_witness:
  "90 \<le> score engineAt91
   \<and> calculateDecrement engineAt91 = - 8
   \<and> score (snd (recordAnswer engineAt91 ''q15'' False 15 (Throws ''e''))) = 83"
proof -
  have a: "90 \<le> score engineAt91"
    by (simp add: score_engineAt91)
  have "90 \<le> score engineAt91 \<longrightarrow> calculateDecrement engineAt91 = - 8"
    and "score (snd (recordAnswer engineAt91 ''q15'' False 15 (Throws ''e'')))
          = max 0 (score engineAt91 + calculateDecrement engineAt91)"
    using recordAnswer_incorrect_model [of engineAt91 "''q15''" 15 "Throws ''e''"]
    by blast+
  with a show ?thesis by (simp add: score_engineAt91)
qed

text \<open>
  C9 as amended (the returned value is the raw delta). When the observer returns,
  \<open>recordAnswer\<close> returns the delta computed from the score before the answer, not the
  change of the score. For a correct answer the returned delta is strictly greater than
  the actual increase exactly at the scores 96 to 100 (at 96 it returns 5 while the
  score rises by 4 to 100); at the scores 0 to 95 it is the actual increase. For an
  incorrect answer the returned delta differs from the actual change only at score 0
  (it returns -1 and the score stays 0); at the scores 1 to 100 it is the actual change.
\<close>

theorem recordAnswer_returns_raw_delta:
  "fst (recordAnswer s qid True now Returns) = Inr (calculateIncrement s)
   \<and> fst (recordAnswer s qid False now Returns) = Inr (calculateDecrement s)
   \<and> (96 \<le> score s \<and> score s \<le> 100
        \<longrightarrow> calculateIncrement s > score (snd (recordAnswer s qid True now cb)) - score s)
   \<and> (0 \<le> score s \<and> score s \<le> 95
        \<longrightarrow> calculateIncrement s = score (snd (recordAnswer s qid True now cb)) - score s)
   \<and> (score s = 96
        \<longrightarrow> calculateIncrement s = 5
          \<and> score (snd (recordAnswer s qid True now cb)) - score s = 4
          \<and> score (snd (recordAnswer s qid True now cb)) = 100)
   \<and> (score s = 0
        \<longrightarrow> calculateDecrement s = - 1
          \<and> score (snd (recordAnswer s qid False now cb)) - score s = 0)
   \<and> (1 \<le> score s \<and> score s \<le> 100
        \<longrightarrow> calculateDecrement s = score (snd (recordAnswer s qid False now cb)) - score s)"
proof -
  have inc_hi: "96 \<le> score s \<and> score s \<le> 100
        \<longrightarrow> calculateIncrement s > score (snd (recordAnswer s qid True now cb)) - score s"
    unfolding score_recordAnswer_correct calculateIncrement_def by auto
  have inc_lo: "0 \<le> score s \<and> score s \<le> 95
        \<longrightarrow> calculateIncrement s = score (snd (recordAnswer s qid True now cb)) - score s"
    unfolding score_recordAnswer_correct calculateIncrement_def by auto
  have at96: "score s = 96
        \<longrightarrow> calculateIncrement s = 5
          \<and> score (snd (recordAnswer s qid True now cb)) - score s = 4
          \<and> score (snd (recordAnswer s qid True now cb)) = 100"
    unfolding score_recordAnswer_correct calculateIncrement_def by simp
  have at0: "score s = 0
        \<longrightarrow> calculateDecrement s = - 1
          \<and> score (snd (recordAnswer s qid False now cb)) - score s = 0"
    unfolding score_recordAnswer_incorrect calculateDecrement_def by simp
  have dec: "1 \<le> score s \<and> score s \<le> 100
        \<longrightarrow> calculateDecrement s = score (snd (recordAnswer s qid False now cb)) - score s"
    unfolding score_recordAnswer_incorrect calculateDecrement_def by simp
  from inc_hi inc_lo at96 at0 dec show ?thesis
    by (simp only: fst_recordAnswer_Returns if_True if_False simp_thms)
qed

theorem recordAnswer_returns_raw_delta_witness:
  "score engineAt96 = 96
   \<and> fst (recordAnswer engineAt96 ''q16'' True 16 (Returns :: string callback)) = Inr 5
   \<and> score (snd (recordAnswer engineAt96 ''q16'' True 16 (Returns :: string callback)))
        - score engineAt96 = 4"
proof -
  note t = recordAnswer_returns_raw_delta [of engineAt96 "''q16''" 16 "Returns :: string callback"]
  from t have "fst (recordAnswer engineAt96 ''q16'' True 16 (Returns :: string callback))
      = Inr (calculateIncrement engineAt96)"
    by blast
  moreover from t score_engineAt96 have "calculateIncrement engineAt96 = 5
     \<and> score (snd (recordAnswer engineAt96 ''q16'' True 16 (Returns :: string callback)))
        - score engineAt96 = 4"
    by blast
  ultimately show ?thesis using score_engineAt96 by simp
qed

text \<open>
  The claim C9 as it was stated fails at score 91, a score the engine reaches: a correct
  answer there returns 5 and the score rises by 5, so the returned delta is not
  strictly greater than the increase.
\<close>

theorem raw_delta_counterexample:
  "91 \<le> score engineAt91 \<and> score engineAt91 \<le> 99
   \<and> fst (recordAnswer engineAt91 ''q15'' True 15 (Returns :: string callback)) = Inr 5
   \<and> \<not> 5 > score (snd (recordAnswer engineAt91 ''q15'' True 15 (Returns :: string callback)))
            - score engineAt91"
  by (simp add: fst_recordAnswer_Returns score_recordAnswer_correct calculateIncrement_def
      score_engineAt91)

text \<open>
  C10 (completion is not absorbing). \<open>recordAnswer\<close> does not test for completion: at
  score exactly 100, where \<open>isComplete\<close> holds, an incorrect answer sets the score to 92,
  after which \<open>isComplete\<close> no longer holds; it still increments \<open>questionsAnswered\<close> and
  appends the entry to both histories.
\<close>

theorem completion_not_absorbing:
  assumes "score s = 100"
  shows "isComplete s
       \<and> score (snd (recordAnswer s qid False now cb)) = 92
       \<and> \<not> isComplete (snd (recordAnswer s qid False now cb))
       \<and> questionsAnswered (snd (recordAnswer s qid False now cb)) = questionsAnswered s + 1
       \<and> allQuestionHistory (snd (recordAnswer s qid False now cb))
           = allQuestionHistory s @
             [\<lparr>questionId = qid, wasCorrect = False,
               attemptNumber = currentAttempt s, timestamp = now\<rparr>]
       \<and> currentAttemptHistory (snd (recordAnswer s qid False now cb))
           = currentAttemptHistory s @
             [\<lparr>questionId = qid, wasCorrect = False,
               attemptNumber = currentAttempt s, timestamp = now\<rparr>]"
  using assms
  by (simp add: isComplete_def recordAnswer_def Let_def calculateDecrement_def)

theorem completion_not_absorbing_witness:
  "score engineAt100 = 100
   \<and> isComplete engineAt100
   \<and> score (snd (recordAnswer engineAt100 ''q17'' False 17 (Returns :: string callback))) = 92
   \<and> \<not> isComplete (snd (recordAnswer engineAt100 ''q17'' False 17 (Returns :: string callback)))"
  using completion_not_absorbing [OF score_engineAt100, of "''q17''" 17 "Returns :: string callback"]
    score_engineAt100
  by blast

section \<open>The observer and the attempt reset\<close>

text \<open>
  C6 as amended (a throwing observer). If the observer throws inside \<open>recordAnswer\<close>, the
  engine has already been updated in full (counters, both histories, cursor, score) and
  is the same engine as when the observer returns, so the state is not corrupted. The
  call of the observer is not guarded: with an observer registered the exception leaves
  \<open>recordAnswer\<close>, which returns no delta; with no observer registered nothing is called
  and the delta is returned.
\<close>

theorem recordAnswer_observer_throws:
  "snd (recordAnswer s qid correct now (Throws e)) = snd (recordAnswer s qid correct now Returns)
   \<and> snd (recordAnswer s qid correct now (Throws e)) =
       s\<lparr>questionsAnswered := questionsAnswered s + 1,
         allQuestionHistory := allQuestionHistory s @
           [\<lparr>questionId = qid, wasCorrect = correct,
             attemptNumber = currentAttempt s, timestamp = now\<rparr>],
         currentAttemptHistory := currentAttemptHistory s @
           [\<lparr>questionId = qid, wasCorrect = correct,
             attemptNumber = currentAttempt s, timestamp = now\<rparr>],
         currentGuidingIndex :=
           (if currentGuidingIndex s < length (guidingQuestions s) \<and>
               id_q (guidingQuestions s ! currentGuidingIndex s) = qid
            then currentGuidingIndex s + 1 else currentGuidingIndex s),
         correctAnswers := (if correct then correctAnswers s + 1 else correctAnswers s),
         score := (if correct then min 100 (score s + calculateIncrement s)
                   else max 0 (score s + calculateDecrement s))\<rparr>
   \<and> (onStatsUpdate s \<noteq> None \<longrightarrow> fst (recordAnswer s qid correct now (Throws e)) = Inl e)
   \<and> (onStatsUpdate s = None \<longrightarrow>
        fst (recordAnswer s qid correct now (Throws e))
          = Inr (if correct then calculateIncrement s else calculateDecrement s))"
proof -
  have st: "snd (recordAnswer s qid correct now (Throws e))
      = snd (recordAnswer s qid correct now Returns)"
    by (rule snd_recordAnswer_callback)
  have upd: "snd (recordAnswer s qid correct now (Throws e)) =
       s\<lparr>questionsAnswered := questionsAnswered s + 1,
         allQuestionHistory := allQuestionHistory s @
           [\<lparr>questionId = qid, wasCorrect = correct,
             attemptNumber = currentAttempt s, timestamp = now\<rparr>],
         currentAttemptHistory := currentAttemptHistory s @
           [\<lparr>questionId = qid, wasCorrect = correct,
             attemptNumber = currentAttempt s, timestamp = now\<rparr>],
         currentGuidingIndex :=
           (if currentGuidingIndex s < length (guidingQuestions s) \<and>
               id_q (guidingQuestions s ! currentGuidingIndex s) = qid
            then currentGuidingIndex s + 1 else currentGuidingIndex s),
         correctAnswers := (if correct then correctAnswers s + 1 else correctAnswers s),
         score := (if correct then min 100 (score s + calculateIncrement s)
                   else max 0 (score s + calculateDecrement s))\<rparr>"
    by (simp add: recordAnswer_def Let_def)
  have thr: "onStatsUpdate s \<noteq> None \<longrightarrow>
      fst (recordAnswer s qid correct now (Throws e)) = Inl e"
    by (auto simp: recordAnswer_def Let_def notifyStatsUpdate_def)
  have ret: "onStatsUpdate s = None \<longrightarrow>
        fst (recordAnswer s qid correct now (Throws e))
          = Inr (if correct then calculateIncrement s else calculateDecrement s)"
    by (simp add: recordAnswer_def Let_def notifyStatsUpdate_def)
  from st upd thr ret show ?thesis by blast
qed

theorem recordAnswer_observer_throws_witness:
  "onStatsUpdate demoEngine \<noteq> None
   \<and> fst (recordAnswer demoEngine ''q1'' True 1 (Throws ''observer failed''))
       = Inl ''observer failed''
   \<and> score (snd (recordAnswer demoEngine ''q1'' True 1 (Throws ''observer failed''))) = 14"
proof -
  have a: "onStatsUpdate demoEngine \<noteq> None"
    by (simp add: demoEngine_def new_PowerPath100_def)
  note t = recordAnswer_observer_throws [of demoEngine "''q1''" True 1 "''observer failed''"]
  from t a have b: "fst (recordAnswer demoEngine ''q1'' True 1 (Throws ''observer failed''))
       = Inl ''observer failed''"
    by blast
  from t have "snd (recordAnswer demoEngine ''q1'' True 1 (Throws ''observer failed''))
      = snd (recordAnswer demoEngine ''q1'' True 1 Returns)"
    by blast
  then have "score (snd (recordAnswer demoEngine ''q1'' True 1 (Throws ''observer failed''))) = 14"
    by (simp add: score_recordAnswer_correct calculateIncrement_def score_demoEngine)
  with a b show ?thesis by blast
qed

text \<open>
  The claim C6 as it was stated fails: on a fresh engine with an observer registered, a
  call of \<open>recordAnswer\<close> in which the observer throws ends with that exception and not
  with the delta.
\<close>

theorem observer_isolation_counterexample:
  "onStatsUpdate demoEngine = Some ()
   \<and> fst (recordAnswer demoEngine ''q1'' True 1 (Throws ''observer failed''))
       = Inl ''observer failed''
   \<and> fst (recordAnswer demoEngine ''q1'' True 1 (Throws ''observer failed''))
       \<noteq> Inr (calculateIncrement demoEngine)"
  by (simp add: recordAnswer_def Let_def notifyStatsUpdate_def demoEngine_def
      new_PowerPath100_def)

text \<open>
  C7 (\<open>resetAttempt\<close>). For every engine, whatever the observer does, \<open>resetAttempt\<close> sets
  \<open>score\<close>, \<open>questionsAnswered\<close>, \<open>correctAnswers\<close> and the guiding cursor to 0, empties the
  history of the attempt, adds exactly 1 to the attempt number and sets \<open>startTime\<close> to
  the clock value it reads; the global history, the guiding pool, the quiz pool and the
  registered observer are unchanged.
\<close>

theorem resetAttempt_effect_and_frame:
  "score (snd (resetAttempt s now cb)) = 0
   \<and> questionsAnswered (snd (resetAttempt s now cb)) = 0
   \<and> correctAnswers (snd (resetAttempt s now cb)) = 0
   \<and> currentGuidingIndex (snd (resetAttempt s now cb)) = 0
   \<and> currentAttemptHistory (snd (resetAttempt s now cb)) = []
   \<and> currentAttempt (snd (resetAttempt s now cb)) = currentAttempt s + 1
   \<and> startTime (snd (resetAttempt s now cb)) = now
   \<and> allQuestionHistory (snd (resetAttempt s now cb)) = allQuestionHistory s
   \<and> guidingQuestions (snd (resetAttempt s now cb)) = guidingQuestions s
   \<and> quizQuestions (snd (resetAttempt s now cb)) = quizQuestions s
   \<and> onStatsUpdate (snd (resetAttempt s now cb)) = onStatsUpdate s"
  by (simp add: resetAttempt_def Let_def)

theorem resetAttempt_effect_and_frame_witness:
  "score (snd (resetAttempt engineAt100 20 (Returns :: string callback))) = 0
   \<and> currentAttempt (snd (resetAttempt engineAt100 20 (Returns :: string callback)))
       = currentAttempt engineAt100 + 1
   \<and> allQuestionHistory (snd (resetAttempt engineAt100 20 (Returns :: string callback)))
       = allQuestionHistory engineAt100"
  using resetAttempt_effect_and_frame [of engineAt100 20 "Returns :: string callback"]
  by blast

section \<open>Shuffling and the selection waterfall\<close>

subsection \<open>\<open>shuffleArray\<close> permutes its argument\<close>

lemma length_shuffleLoop: "length (fst (shuffleLoop rnd p k xs)) = length xs"
  by (induction k arbitrary: p xs) (simp_all add: Let_def)

lemma length_shuffleArray: "length (fst (shuffleArray rnd p xs)) = length xs"
  by (simp add: shuffleArray_def length_shuffleLoop)

lemma draw_index_le:
  assumes "0 \<le> r" and "r < 1"
  shows "nat \<lfloor>r * real (i + 1)\<rfloor> \<le> i"
proof -
  have "r * real (i + 1) < real (i + 1)"
    using assms by simp
  then have "\<lfloor>r * real (i + 1)\<rfloor> < int (i + 1)"
    by (simp add: floor_less_iff)
  then show ?thesis by linarith
qed

lemma mset_shuffleLoop:
  assumes "\<forall>n. 0 \<le> rnd n \<and> rnd n < 1"
  shows "k < length xs \<Longrightarrow> mset (fst (shuffleLoop rnd p k xs)) = mset xs"
proof (induction k arbitrary: p xs)
  case 0
  then show ?case by simp
next
  case (Suc k)
  let ?j = "nat \<lfloor>rnd p * real (Suc k + 1)\<rfloor>"
  let ?ys = "xs[Suc k := xs ! ?j, ?j := xs ! Suc k]"
  have j: "?j \<le> Suc k"
    using assms draw_index_le [of "rnd p" "Suc k"] by simp
  with Suc.prems have jl: "?j < length xs" by simp
  have swap: "mset ?ys = mset xs"
    using mset_swap [of "?j" xs "Suc k"] jl Suc.prems by simp
  have "k < length ?ys" using Suc.prems by simp
  then have "mset (fst (shuffleLoop rnd (p + 1) k ?ys)) = mset ?ys"
    by (rule Suc.IH)
  with swap show ?case by (simp add: Let_def)
qed

lemma mset_shuffleArray:
  assumes "\<forall>n. 0 \<le> rnd n \<and> rnd n < 1"
  shows "mset (fst (shuffleArray rnd p xs)) = mset xs"
proof (cases xs)
  case Nil
  then show ?thesis by (simp add: shuffleArray_def)
next
  case (Cons x xs')
  then have "length xs - 1 < length xs" by simp
  then show ?thesis
    unfolding shuffleArray_def using assms by (rule mset_shuffleLoop [rotated])
qed

lemma set_shuffleArray:
  assumes "\<forall>n. 0 \<le> rnd n \<and> rnd n < 1"
  shows "set (fst (shuffleArray rnd p xs)) = set xs"
  using mset_shuffleArray [OF assms, of p xs] by (metis set_mset_mset)

lemma first_None_iff: "first xs = None \<longleftrightarrow> xs = []"
  by (cases xs) (simp_all add: first_def)

lemma first_in_set: "first xs = Some x \<Longrightarrow> x \<in> set xs"
  by (cases xs) (simp_all add: first_def)

lemma first_append: "xs \<noteq> [] \<Longrightarrow> first (xs @ ys) = first xs"
  by (cases xs) (simp_all add: first_def)

lemma fst_prioritizeHumanApproved:
  "fst (prioritizeHumanApproved rnd p qs) =
     fst (shuffleArray rnd p (filter isApproved qs)) @
     fst (shuffleArray rnd (snd (shuffleArray rnd p (filter isApproved qs)))
            (filter (\<lambda>q. \<not> isApproved q) qs))"
  by (simp add: prioritizeHumanApproved_def Let_def split_def)

lemma length_prioritizeHumanApproved:
  "length (fst (prioritizeHumanApproved rnd p qs)) = length qs"
  by (simp add: fst_prioritizeHumanApproved length_shuffleArray sum_length_filter_compl)

lemma mset_prioritizeHumanApproved:
  assumes "\<forall>n. 0 \<le> rnd n \<and> rnd n < 1"
  shows "mset (fst (prioritizeHumanApproved rnd p qs)) = mset qs"
  by (simp add: fst_prioritizeHumanApproved mset_shuffleArray [OF assms])

lemma set_prioritizeHumanApproved:
  assumes "\<forall>n. 0 \<le> rnd n \<and> rnd n < 1"
  shows "set (fst (prioritizeHumanApproved rnd p qs)) = set qs"
  using mset_prioritizeHumanApproved [OF assms, of p qs] by (metis set_mset_mset)

lemma first_prioritize_Some:
  "qs \<noteq> [] \<Longrightarrow> \<exists>q. first (fst (prioritizeHumanApproved rnd p qs)) = Some q"
proof -
  assume "qs \<noteq> []"
  then have "fst (prioritizeHumanApproved rnd p qs) \<noteq> []"
    using length_prioritizeHumanApproved [of rnd p qs] by auto
  then show ?thesis
    using first_None_iff [of "fst (prioritizeHumanApproved rnd p qs)"] by auto
qed

lemma first_prioritize_approved:
  assumes rng: "\<forall>n. 0 \<le> rnd n \<and> rnd n < 1"
    and ex: "\<exists>q \<in> set qs. isApproved q"
  shows "\<exists>q. first (fst (prioritizeHumanApproved rnd p qs)) = Some q \<and> isApproved q \<and> q \<in> set qs"
proof -
  let ?as = "fst (shuffleArray rnd p (filter isApproved qs))"
  from ex have "filter isApproved qs \<noteq> []"
    by (simp add: filter_empty_conv)
  then have ne: "?as \<noteq> []"
    using length_shuffleArray [of rnd p "filter isApproved qs"] by auto
  then obtain q where q: "first ?as = Some q"
    using first_None_iff [of ?as] by auto
  then have "q \<in> set ?as" by (rule first_in_set)
  then have "q \<in> set (filter isApproved qs)"
    by (simp add: set_shuffleArray [OF rng])
  moreover have "first (fst (prioritizeHumanApproved rnd p qs)) = Some q"
    using ne q by (simp add: fst_prioritizeHumanApproved first_append)
  ultimately show ?thesis by simp
qed

lemma firstNonEmpty_append:
  "firstNonEmpty (xs @ ys) = (case firstNonEmpty xs of Some c \<Rightarrow> Some c | None \<Rightarrow> firstNonEmpty ys)"
  by (induction xs) simp_all

lemma firstNonEmpty_None_iff: "firstNonEmpty cs = None \<longleftrightarrow> (\<forall>c \<in> set cs. c = [])"
  by (induction cs) auto

lemma firstNonEmpty_Some_nonempty: "firstNonEmpty cs = Some c \<Longrightarrow> c \<noteq> [] \<and> c \<in> set cs"
  by (induction cs) (auto split: if_splits)

lemma selectUnseenLoop_candidates:
  "selectUnseenLoop rnd p qs seen ds =
     map_option (\<lambda>c. (first (fst (prioritizeHumanApproved rnd p c)),
                       snd (prioritizeHumanApproved rnd p c)))
       (firstNonEmpty (map (\<lambda>d. filterUnseenQuestions (filterByDifficulty qs d) seen) ds))"
  by (induction ds) (simp_all add: Let_def split_def)

lemma selectAnyLoop_candidates:
  "selectAnyLoop rnd p qs ds =
     map_option (\<lambda>c. (first (fst (prioritizeHumanApproved rnd p c)),
                       snd (prioritizeHumanApproved rnd p c)))
       (firstNonEmpty (map (\<lambda>d. filterByDifficulty qs d) ds))"
  by (induction ds) (simp_all add: Let_def split_def)

lemma set_getFallbackDifficulties: "set (getFallbackDifficulties d) = {easy, medium, hard}"
  by (cases d) (auto simp: getFallbackDifficulties_def)

lemma hd_getFallbackDifficulties: "\<exists>ds. getFallbackDifficulties d = d # ds"
  by (cases d) (simp_all add: getFallbackDifficulties_def)

lemma all_tiers_empty_iff:
  "(\<forall>d \<in> set (getFallbackDifficulties t). filterByDifficulty qs d = []) \<longleftrightarrow> qs = []"
proof
  assume a: "\<forall>d \<in> set (getFallbackDifficulties t). filterByDifficulty qs d = []"
  show "qs = []"
  proof (cases qs)
    case Nil
    then show ?thesis .
  next
    case (Cons q qs')
    have "difficulty q \<in> set (getFallbackDifficulties t)"
      by (cases "difficulty q") (simp_all add: set_getFallbackDifficulties)
    with a have "filterByDifficulty qs (difficulty q) = []" by blast
    with Cons show ?thesis by (simp add: filterByDifficulty_def)
  qed
next
  assume "qs = []"
  then show "\<forall>d \<in> set (getFallbackDifficulties t). filterByDifficulty qs d = []"
    by (simp add: filterByDifficulty_def)
qed

lemma candidateSet_None_iff: "candidateSet s t = None \<longleftrightarrow> quizQuestions s = []"
proof
  assume "candidateSet s t = None"
  then have "\<forall>d \<in> set (getFallbackDifficulties t). filterByDifficulty (quizQuestions s) d = []"
    by (simp add: candidateSet_def Let_def firstNonEmpty_None_iff ball_Un)
  then show "quizQuestions s = []"
    by (simp only: all_tiers_empty_iff)
next
  assume "quizQuestions s = []"
  then show "candidateSet s t = None"
    by (simp add: candidateSet_def Let_def firstNonEmpty_None_iff
        filterByDifficulty_def filterUnseenQuestions_def)
qed

lemma candidateSet_Some:
  assumes "candidateSet s t = Some c"
  shows "c \<noteq> [] \<and> set c \<subseteq> set (quizQuestions s)"
proof -
  from assms have "c \<noteq> []" and "c \<in> set
           (map (\<lambda>d. filterUnseenQuestions (filterByDifficulty (quizQuestions s) d)
                        (getGloballySeenQuestionIds s)) (getFallbackDifficulties t)
            @ map (\<lambda>d. filterUnseenQuestions (filterByDifficulty (quizQuestions s) d)
                        (getCurrentAttemptSeenIds s)) (getFallbackDifficulties t)
            @ map (\<lambda>d. filterByDifficulty (quizQuestions s) d) (getFallbackDifficulties t))"
    unfolding candidateSet_def Let_def by (auto dest: firstNonEmpty_Some_nonempty)
  then show ?thesis
    by (auto simp: filterByDifficulty_def filterUnseenQuestions_def)
qed

lemma anyTier_None:
  assumes "firstNonEmpty (map (\<lambda>d. filterByDifficulty qs d) (getFallbackDifficulties t)) = None"
  shows "qs = []"
proof -
  from assms have "\<forall>d \<in> set (getFallbackDifficulties t). filterByDifficulty qs d = []"
    by (simp add: firstNonEmpty_None_iff)
  then show ?thesis by (simp only: all_tiers_empty_iff)
qed

lemma selectQuizQuestion_candidates:
  "selectQuizQuestion s rnd p =
     (case candidateSet s (fst (getTargetDifficulty s rnd p)) of
        Some c \<Rightarrow>
          (first (fst (prioritizeHumanApproved rnd (snd (getTargetDifficulty s rnd p)) c)),
           snd (prioritizeHumanApproved rnd (snd (getTargetDifficulty s rnd p)) c))
      | None \<Rightarrow> (None, snd (getTargetDifficulty s rnd p)))"
  unfolding selectQuizQuestion_def Let_def split_def candidateSet_def
    selectUnseenLoop_candidates selectAnyLoop_candidates firstNonEmpty_append
  by (auto split: option.splits dest: anyTier_None)

lemma selectQuizQuestion_None_iff:
  "fst (selectQuizQuestion s rnd p) = None \<longleftrightarrow> quizQuestions s = []"
proof (cases "candidateSet s (fst (getTargetDifficulty s rnd p))")
  case None
  then have "quizQuestions s = []"
    by (simp only: candidateSet_None_iff)
  with None show ?thesis
    by (simp add: selectQuizQuestion_candidates)
next
  case (Some c)
  then have "c \<noteq> []" and "quizQuestions s \<noteq> []"
    using candidateSet_Some [OF Some] candidateSet_None_iff [of s "fst (getTargetDifficulty s rnd p)"]
    by auto
  then show ?thesis
    using Some first_prioritize_Some [of c rnd "snd (getTargetDifficulty s rnd p)"]
    by (auto simp: selectQuizQuestion_candidates)
qed

lemma candidateSet_target_unseen:
  assumes "q \<in> set (quizQuestions s)" and "difficulty q = t"
    and "id_q q \<notin> getGloballySeenQuestionIds s"
  shows "candidateSet s t =
           Some (filterUnseenQuestions (filterByDifficulty (quizQuestions s) t)
                   (getGloballySeenQuestionIds s))"
proof -
  obtain ds where ds: "getFallbackDifficulties t = t # ds"
    using hd_getFallbackDifficulties by blast
  have "q \<in> set (filterUnseenQuestions (filterByDifficulty (quizQuestions s) t)
                   (getGloballySeenQuestionIds s))"
    using assms by (simp add: filterUnseenQuestions_def filterByDifficulty_def)
  then have "filterUnseenQuestions (filterByDifficulty (quizQuestions s) t)
                   (getGloballySeenQuestionIds s) \<noteq> []"
    by auto
  then show ?thesis
    by (simp add: candidateSet_def Let_def ds)
qed

subsection \<open>Candidate sets of the sample engines\<close>

lemma candidateSet_quizEngine:
  "candidateSet quizEngine (fst (getTargetDifficulty quizEngine halfRandom 0))
     = Some [questionA, questionB]"
  by (simp add: candidateSet_def Let_def getTargetDifficulty_def getFallbackDifficulties_def
      getGloballySeenQuestionIds_def getCurrentAttemptSeenIds_def quizEngine_fields
      filterByDifficulty_def filterUnseenQuestions_def questionA_def questionB_def questionC_def)

subsection \<open>The claims about selection\<close>

text \<open>
  C4 (exposure avoidance). For every engine, in particular every engine in quiz phase,
  and every random source with draws in \<open>[0, 1)\<close>: if some quiz question has the targeted
  tier and an id that does not occur in the global history, then \<open>selectQuizQuestion\<close>
  returns a question, it is a quiz question of the targeted tier, and its id does not
  occur in the global history. In quiz phase with a score below 100 this is the question
  \<open>getNextQuestion\<close> returns.
\<close>

theorem exposure_avoidance:
  assumes rng: "\<forall>n. 0 \<le> rnd n \<and> rnd n < 1"
    and pool: "q0 \<in> set (quizQuestions s)"
    and tier: "difficulty q0 = fst (getTargetDifficulty s rnd p)"
    and unseen: "id_q q0 \<notin> getGloballySeenQuestionIds s"
  shows "\<exists>q. fst (selectQuizQuestion s rnd p) = Some q
           \<and> q \<in> set (quizQuestions s)
           \<and> difficulty q = fst (getTargetDifficulty s rnd p)
           \<and> id_q q \<notin> questionId ` set (allQuestionHistory s)
           \<and> (getCurrentPhase s = quiz \<and> score s < 100
                \<longrightarrow> fst (getNextQuestion s rnd p) = Some q)"
proof -
  let ?t = "fst (getTargetDifficulty s rnd p)"
  let ?p1 = "snd (getTargetDifficulty s rnd p)"
  let ?U = "filterUnseenQuestions (filterByDifficulty (quizQuestions s) ?t)
              (getGloballySeenQuestionIds s)"
  have c: "candidateSet s ?t = Some ?U"
    using pool tier unseen by (rule candidateSet_target_unseen)
  then have sel: "fst (selectQuizQuestion s rnd p) = first (fst (prioritizeHumanApproved rnd ?p1 ?U))"
    by (simp add: selectQuizQuestion_candidates)
  have "?U \<noteq> []"
    using candidateSet_Some [OF c] by simp
  then obtain q where q: "first (fst (prioritizeHumanApproved rnd ?p1 ?U)) = Some q"
    using first_prioritize_Some by blast
  then have "q \<in> set (fst (prioritizeHumanApproved rnd ?p1 ?U))"
    by (rule first_in_set)
  then have "q \<in> set ?U"
    by (simp only: set_prioritizeHumanApproved [OF rng])
  then have props: "q \<in> set (quizQuestions s)" "difficulty q = ?t"
    "id_q q \<notin> questionId ` set (allQuestionHistory s)"
    by (simp_all add: filterUnseenQuestions_def filterByDifficulty_def
        getGloballySeenQuestionIds_def)
  have "getCurrentPhase s = quiz \<and> score s < 100
          \<longrightarrow> fst (getNextQuestion s rnd p) = Some q"
    using sel q by (simp add: getNextQuestion_def getCurrentPhase_def split: if_splits)
  with sel q props show ?thesis by simp
qed

theorem exposure_avoidance_witness:
  "(\<forall>n. 0 \<le> halfRandom n \<and> halfRandom n < 1)
   \<and> questionB \<in> set (quizQuestions quizEngineSeenA)
   \<and> difficulty questionB = fst (getTargetDifficulty quizEngineSeenA halfRandom 0)
   \<and> id_q questionB \<notin> getGloballySeenQuestionIds quizEngineSeenA
   \<and> (\<exists>q. fst (selectQuizQuestion quizEngineSeenA halfRandom 0) = Some q
          \<and> id_q q \<notin> questionId ` set (allQuestionHistory quizEngineSeenA))"
proof -
  have b: "questionB \<in> set (quizQuestions quizEngineSeenA)"
    by (simp add: quizEngineSeenA_fields)
  have c: "difficulty questionB = fst (getTargetDifficulty quizEngineSeenA halfRandom 0)"
    by (simp add: getTargetDifficulty_def quizEngineSeenA_fields questionB_def)
  have d: "id_q questionB \<notin> getGloballySeenQuestionIds quizEngineSeenA"
    by (simp add: getGloballySeenQuestionIds_def quizEngineSeenA_fields questionB_def)
  from exposure_avoidance [OF halfRandom_range b c d]
  have "\<exists>q. fst (selectQuizQuestion quizEngineSeenA halfRandom 0) = Some q
          \<and> id_q q \<notin> questionId ` set (allQuestionHistory quizEngineSeenA)"
    by blast
  with halfRandom_range b c d show ?thesis by blast
qed

text \<open>
  C5 (\<open>getNextQuestion\<close> returns nothing). \<open>getNextQuestion\<close> returns no question exactly
  when the engine is complete (score at least 100) or it is in quiz phase and the quiz
  pool is empty. In guiding phase with a score below 100 it returns the guiding question
  at the cursor and draws nothing from the random source. The method assigns to no
  field of the engine, which is why no engine is among the results of its model.
\<close>

theorem getNextQuestion_none_iff:
  "(fst (getNextQuestion s rnd p) = None
      \<longleftrightarrow> isComplete s \<or> (getCurrentPhase s = quiz \<and> quizQuestions s = []))
   \<and> (getCurrentPhase s = guiding \<and> score s < 100
        \<longrightarrow> getNextQuestion s rnd p = (Some (guidingQuestions s ! currentGuidingIndex s), p))"
  by (simp add: getNextQuestion_def isComplete_def getCurrentPhase_def
      selectQuizQuestion_None_iff)

theorem getNextQuestion_none_iff_witness:
  "getCurrentPhase guidedEngine = guiding \<and> score guidedEngine < 100
   \<and> getNextQuestion guidedEngine halfRandom 0 = (Some guideQuestion, 0)
   \<and> getCurrentPhase demoEngine = quiz \<and> quizQuestions demoEngine = []
   \<and> fst (getNextQuestion demoEngine halfRandom 0) = None"
proof -
  have a: "getCurrentPhase guidedEngine = guiding \<and> score guidedEngine < 100"
    by (simp add: getCurrentPhase_def guidedEngine_fields)
  have b: "getCurrentPhase demoEngine = quiz \<and> quizQuestions demoEngine = []"
    by (simp add: getCurrentPhase_def demoEngine_def new_PowerPath100_def
        normalizeQuizQuestions_def)
  have "getNextQuestion guidedEngine halfRandom 0
          = (Some (guidingQuestions guidedEngine ! currentGuidingIndex guidedEngine), 0)"
    using getNextQuestion_none_iff [of guidedEngine halfRandom 0] a by blast
  then have c: "getNextQuestion guidedEngine halfRandom 0 = (Some guideQuestion, 0)"
    by (simp add: guidedEngine_fields)
  have d: "fst (getNextQuestion demoEngine halfRandom 0) = None"
    using getNextQuestion_none_iff [of demoEngine halfRandom 0] b by blast
  from a b c d show ?thesis by blast
qed

text \<open>
  C8 (approval ordering). For every random source with draws in \<open>[0, 1)\<close> and every
  candidate set \<open>c\<close> at which the selection waterfall stops: the prioritised list is the
  shuffled approved partition of \<open>c\<close> followed by the shuffled not-approved partition,
  each shuffle being a permutation of its partition, and the selector returns the first
  entry of that list. Hence, whenever \<open>c\<close> contains a human-approved question, the
  question returned by the selector is a human-approved question of \<open>c\<close>.
\<close>

theorem approval_ordering:
  assumes rng: "\<forall>n. 0 \<le> rnd n \<and> rnd n < 1"
    and chosen: "candidateSet s (fst (getTargetDifficulty s rnd p)) = Some c"
  shows "(let p1 = snd (getTargetDifficulty s rnd p);
              approved = shuffleArray rnd p1 (filter isApproved c);
              notApproved = shuffleArray rnd (snd approved) (filter (\<lambda>q. \<not> isApproved q) c)
          in fst (prioritizeHumanApproved rnd p1 c) = fst approved @ fst notApproved
           \<and> mset (fst approved) = mset (filter isApproved c)
           \<and> mset (fst notApproved) = mset (filter (\<lambda>q. \<not> isApproved q) c)
           \<and> fst (selectQuizQuestion s rnd p) = first (fst approved @ fst notApproved))
       \<and> ((\<exists>q \<in> set c. isApproved q)
            \<longrightarrow> (\<exists>q. fst (selectQuizQuestion s rnd p) = Some q \<and> isApproved q \<and> q \<in> set c))"
proof -
  let ?p1 = "snd (getTargetDifficulty s rnd p)"
  have sel: "fst (selectQuizQuestion s rnd p) = first (fst (prioritizeHumanApproved rnd ?p1 c))"
    using chosen by (simp add: selectQuizQuestion_candidates)
  have "(\<exists>q \<in> set c. isApproved q)
            \<longrightarrow> (\<exists>q. fst (selectQuizQuestion s rnd p) = Some q \<and> isApproved q \<and> q \<in> set c)"
    using first_prioritize_approved [OF rng, of c ?p1] sel by simp
  then show ?thesis
    using sel
    by (simp add: Let_def mset_shuffleArray [OF rng] fst_prioritizeHumanApproved)
qed

theorem approval_ordering_witness:
  "(\<forall>n. 0 \<le> halfRandom n \<and> halfRandom n < 1)
   \<and> candidateSet quizEngine (fst (getTargetDifficulty quizEngine halfRandom 0))
       = Some [questionA, questionB]
   \<and> isApproved questionB \<and> \<not> isApproved questionA
   \<and> (\<exists>q. fst (selectQuizQuestion quizEngine halfRandom 0) = Some q \<and> isApproved q)"
proof -
  have a: "isApproved questionB" and a': "\<not> isApproved questionA"
    by (simp_all add: isApproved_def questionB_def questionA_def)
  then have "\<exists>q \<in> set [questionA, questionB]. isApproved q" by simp
  with approval_ordering [OF halfRandom_range candidateSet_quizEngine]
  have "\<exists>q. fst (selectQuizQuestion quizEngine halfRandom 0) = Some q \<and> isApproved q"
    by blast
  with halfRandom_range candidateSet_quizEngine a a' show ?thesis by blast
qed

end
